theory Spec2Isabelle
  imports Main
begin

section \<open>DevLinker user router: feed and swipe-to-match\<close>

text \<open>
  A shallow embedding of the user router (\<^verbatim>\<open>routes/user\<close>): the helpers
  \<^verbatim>\<open>parsePositiveInt\<close>, \<^verbatim>\<open>normalizeString\<close>, \<^verbatim>\<open>normalizeSkills\<close>, and the handlers
  \<^verbatim>\<open>GET /feed\<close>, \<^verbatim>\<open>POST /swipe-left\<close> and \<^verbatim>\<open>POST /swipe-right\<close>.

  Conventions of the model.
  \<^item> A JavaScript string is a \<open>string\<close> of code units below 256.
  \<^item> A JavaScript number is the \<open>int\<close> it stands for. The code's numbers are doubles:
    they agree with the model on the safe integers (below \<open>2^53\<close> in absolute value,
    \<open>safe_integer\<close>), where parsing and arithmetic are exact; the limit is exact for
    every input, since it is capped at 50.
  \<^item> An ObjectId is a value of the type variable \<open>'u\<close>.
  \<^item> A collection is the list of its documents in natural order; \<^verbatim>\<open>findOne\<close> returns
    the first document that matches.
  \<^item> A handler is a function from the collections to the response and the new ledger;
    requests run one after the other. The middlewares \<^verbatim>\<open>userAuth\<close> and
    \<^verbatim>\<open>checkProfileComplete\<close> have run before the handler: the actor is
    \<^verbatim>\<open>req.user._id\<close>.
  \<^item> A store operation fails only where the model says so.
\<close>

subsection \<open>Strings and query values\<close>

text \<open>White space as \<^verbatim>\<open>String.prototype.trim\<close> and \<^verbatim>\<open>parseInt\<close> skip it: TAB, LF, VT, FF,
  CR, SP and NBSP.\<close>

definition isWhiteSpace :: "char \<Rightarrow> bool" where
  "isWhiteSpace c = ((of_char c :: nat) \<in> set [9, 10, 11, 12, 13, 32, 160])"

definition isDigit :: "char \<Rightarrow> bool" where
  "isDigit c = (48 \<le> (of_char c :: nat) \<and> (of_char c :: nat) \<le> 57)"

definition digitValue :: "char \<Rightarrow> int" where
  "digitValue c = int (of_char c) - 48"

definition trim :: "string \<Rightarrow> string" where
  "trim s = rev (dropWhile isWhiteSpace (rev (dropWhile isWhiteSpace s)))"

text \<open>\<^verbatim>\<open>s.split(",")\<close>.\<close>

fun split_comma :: "string \<Rightarrow> string list" where
  "split_comma [] = [[]]"
| "split_comma (c # cs) =
     (if c = CHR '','' then [] # split_comma cs
      else (case split_comma cs of
              [] \<Rightarrow> [[c]]
            | p # ps \<Rightarrow> (c # p) # ps))"

text \<open>A value of \<^verbatim>\<open>req.query\<close>: absent, a string, or an array of strings (a repeated
  parameter).\<close>

datatype qvalue = QUndefined | QString string | QArray "string list"

fun join_comma :: "string list \<Rightarrow> string" where
  "join_comma [] = []"
| "join_comma [x] = x"
| "join_comma (x # y # ys) = x @ '','' @ join_comma (y # ys)"

text \<open>\<^verbatim>\<open>String(value)\<close>.\<close>

fun String_of :: "qvalue \<Rightarrow> string" where
  "String_of QUndefined = ''undefined''"
| "String_of (QString s) = s"
| "String_of (QArray xs) = join_comma xs"

text \<open>\<^verbatim>\<open>Number.parseInt(s, 10)\<close>: leading white space, an optional sign, then the longest
  run of decimal digits; \<open>None\<close> is \<^verbatim>\<open>NaN\<close>. The result is the integer the digits denote;
  the code gets the nearest double, which is that integer when it is safe.\<close>

definition parseInt10 :: "string \<Rightarrow> int option" where
  "parseInt10 s =
     (let t = dropWhile isWhiteSpace s;
          neg = (case t of [] \<Rightarrow> False | c # _ \<Rightarrow> c = CHR ''-'');
          r = (case t of [] \<Rightarrow> [] | c # cs \<Rightarrow> if c = CHR ''-'' \<or> c = CHR ''+'' then cs else t);
          ds = takeWhile isDigit r
      in if ds = [] then None
         else Some ((if neg then - 1 else 1) * foldl (\<lambda>a c. 10 * a + digitValue c) 0 ds))"

text \<open>The integers that a double represents exactly, with exact sums and products
  (\<^verbatim>\<open>Number.isSafeInteger\<close>).\<close>

definition safe_integer :: "int \<Rightarrow> bool" where
  "safe_integer n = (- (2 ^ 53) < n \<and> n < 2 ^ 53)"

text \<open>A numeric parameter: white space around an optional sign and decimal digits, and
  nothing else.\<close>

definition numeric :: "string \<Rightarrow> bool" where
  "numeric s =
     (let t = trim s;
          r = (case t of [] \<Rightarrow> [] | c # cs \<Rightarrow> if c = CHR ''-'' \<or> c = CHR ''+'' then cs else t)
      in r \<noteq> [] \<and> list_all isDigit r)"

definition parsePositiveInt :: "qvalue \<Rightarrow> int \<Rightarrow> int" where
  "parsePositiveInt v fallback =
     (case parseInt10 (String_of v) of
        None \<Rightarrow> fallback
      | Some parsed \<Rightarrow> if parsed \<le> 0 then fallback else parsed)"

definition normalizeString :: "qvalue \<Rightarrow> string" where
  "normalizeString v = (case v of QUndefined \<Rightarrow> [] | _ \<Rightarrow> trim (String_of v))"

definition normalizeSkills :: "qvalue \<Rightarrow> string list" where
  "normalizeSkills v =
     (case v of
        QUndefined \<Rightarrow> []
      | QArray xs \<Rightarrow> filter (\<lambda>s. s \<noteq> []) (map (\<lambda>x. normalizeString (QString x)) xs)
      | QString _ \<Rightarrow>
          (let str = normalizeString v
           in if str = [] then []
              else if CHR '','' \<in> set str
                then filter (\<lambda>s. s \<noteq> []) (map trim (split_comma str))
              else [str]))"

subsection \<open>Data model\<close>

datatype status = interested | ignored | accepted

record 'u connection_request =
  fromUserId :: 'u
  toUserId :: 'u
  status :: status

record 'u user =
  user_id :: 'u
  isProfileComplete :: bool
  skills :: "string list"
  experience :: "string option"
  role :: "string option"
  availability :: "string option"
  location :: "string option"

type_synonym 'u ledger = "'u connection_request list"

subsection \<open>Store operations\<close>

datatype store_error = CastError | ValidationError | Conflict | RegexError

text \<open>\<^verbatim>\<open>User.findById\<close>.\<close>

definition findById :: "'u user list \<Rightarrow> 'u \<Rightarrow> 'u user option" where
  "findById users u = find (\<lambda>x. user_id x = u) users"

text \<open>\<^verbatim>\<open>ConnectionRequest.findOne({fromUserId, toUserId})\<close>.\<close>

definition findOne :: "'u ledger \<Rightarrow> 'u \<Rightarrow> 'u \<Rightarrow> 'u connection_request option" where
  "findOne ledger a b = find (\<lambda>r. fromUserId r = a \<and> toUserId r = b) ledger"

text \<open>\<^verbatim>\<open>ConnectionRequest.findOne({fromUserId, toUserId, status: "interested"})\<close>.\<close>

definition findOneInterested :: "'u ledger \<Rightarrow> 'u \<Rightarrow> 'u \<Rightarrow> 'u connection_request option" where
  "findOneInterested ledger a b =
     find (\<lambda>r. fromUserId r = a \<and> toUserId r = b \<and> status r = interested) ledger"

text \<open>Modelled from the spec: the schema of \<^verbatim>\<open>models/connectionRequest\<close> is missing. The
  stored entity keeps the invariants of the data model. The insertion is refused with a
  validation error when \<open>fromUserId = toUserId\<close> (no self-requests), it fails with
  \<open>Conflict\<close> if a record already exists for the ordered pair, and otherwise it appends the
  record and returns it. The handler's \<^verbatim>\<open>catch\<close> answers a refused insertion.\<close>

definition save :: "'u connection_request \<Rightarrow> 'u ledger
    \<Rightarrow> store_error + ('u connection_request \<times> 'u ledger)" where
  "save r ledger =
     (if fromUserId r = toUserId r then Inl ValidationError
      else if findOne ledger (fromUserId r) (toUserId r) \<noteq> None then Inl Conflict
      else Inr (r, ledger @ [r]))"

text \<open>\<^verbatim>\<open>ConnectionRequest.updateMany({$or: [{a, b}, {b, a}]}, {$set: {status: "accepted"}})\<close>.\<close>

definition updateMany :: "'u \<Rightarrow> 'u \<Rightarrow> 'u ledger \<Rightarrow> 'u ledger" where
  "updateMany a b ledger =
     map (\<lambda>r. if (fromUserId r = a \<and> toUserId r = b) \<or> (fromUserId r = b \<and> toUserId r = a)
              then r\<lparr>status := accepted\<rparr> else r) ledger"

subsection \<open>Swipe handlers\<close>

text \<open>The \<^verbatim>\<open>toUserId\<close> of the request body: falsy or absent (\<open>Missing\<close>), a value that
  does not cast to an ObjectId (\<open>Malformed\<close>: the first query throws and the handler's
  \<^verbatim>\<open>catch\<close> answers), or a value that casts to the ObjectId \<open>u\<close>.\<close>

datatype 'u body_id = Missing | Malformed | ObjectId 'u

datatype msg = Msg string | ErrMessage store_error

datatype 'u swipe_response =
  Response (code: nat) (message: msg) (data: "'u connection_request option")
    (matched: "bool option")

definition swipe_left :: "'u user list \<Rightarrow> 'u \<Rightarrow> 'u body_id \<Rightarrow> 'u ledger
    \<Rightarrow> 'u swipe_response \<times> 'u ledger" where
  "swipe_left users loggedInUser body ledger =
     (case body of
        Missing \<Rightarrow> (Response 400 (Msg ''toUserId is required'') None None, ledger)
      | Malformed \<Rightarrow> (Response 400 (ErrMessage CastError) None None, ledger)
      | ObjectId target \<Rightarrow>
          (case findById users target of
             None \<Rightarrow> (Response 404 (Msg ''User not found'') None None, ledger)
           | Some toUser \<Rightarrow>
               (case findOne ledger loggedInUser target of
                  Some existing \<Rightarrow>
                    (Response 200 (Msg ''Already swiped'') (Some existing) None, ledger)
                | None \<Rightarrow>
                    (case save \<lparr>fromUserId = loggedInUser, toUserId = target,
                                status = ignored\<rparr> ledger of
                       Inl err \<Rightarrow> (Response 400 (ErrMessage err) None None, ledger)
                     | Inr (d, ledger') \<Rightarrow>
                         (Response 200 (Msg ''Swiped left'') (Some d) None, ledger')))))"

definition swipe_right :: "'u user list \<Rightarrow> 'u \<Rightarrow> 'u body_id \<Rightarrow> 'u ledger
    \<Rightarrow> 'u swipe_response \<times> 'u ledger" where
  "swipe_right users loggedInUser body ledger =
     (case body of
        Missing \<Rightarrow> (Response 400 (Msg ''toUserId is required'') None None, ledger)
      | Malformed \<Rightarrow> (Response 400 (ErrMessage CastError) None None, ledger)
      | ObjectId target \<Rightarrow>
          (case findById users target of
             None \<Rightarrow> (Response 404 (Msg ''User not found'') None None, ledger)
           | Some toUser \<Rightarrow>
               (case findOne ledger loggedInUser target of
                  Some existing \<Rightarrow>
                    (let reciprocal = findOneInterested ledger target loggedInUser
                     in (Response 200 (Msg ''Already swiped'') (Some existing)
                           (Some (reciprocal \<noteq> None)), ledger))
                | None \<Rightarrow>
                    (let reciprocalInterested = findOneInterested ledger target loggedInUser
                     in case save \<lparr>fromUserId = loggedInUser, toUserId = target,
                                    status = interested\<rparr> ledger of
                          Inl err \<Rightarrow> (Response 400 (ErrMessage err) None None, ledger)
                        | Inr (d, ledger') \<Rightarrow>
                            if reciprocalInterested \<noteq> None
                            then (Response 200 (Msg ''It's a match!'') (Some d) (Some True),
                                  updateMany loggedInUser target ledger')
                            else (Response 200 (Msg ''Connection request sent'') (Some d)
                                    (Some False), ledger')))))"

subsection \<open>Feed handler\<close>

record query =
  q_page :: qvalue
  q_limit :: qvalue
  q_skills :: qvalue
  q_experience :: qvalue
  q_role :: qvalue
  q_availability :: qvalue
  q_location :: qvalue

datatype 'u feed_response =
  FeedData (res_data: "'u user list") (res_page: int) (res_limit: int) (res_hasMore: bool)
| FeedError nat msg

text \<open>The identifiers on either side of a request that involves the user.\<close>

definition hideUsersFromFeed :: "'u ledger \<Rightarrow> 'u \<Rightarrow> 'u list" where
  "hideUsersFromFeed ledger loggedInUser =
     concat (map (\<lambda>r. [fromUserId r, toUserId r])
       (filter (\<lambda>r. fromUserId r = loggedInUser \<or> toUserId r = loggedInUser) ledger))"

text \<open>The \<^verbatim>\<open>filterQuery\<close> of the feed as a predicate on a user document. \<open>m\<close> is the
  matcher of the location pattern.\<close>

definition filterQuery :: "'u list \<Rightarrow> 'u \<Rightarrow> string list \<Rightarrow> string \<Rightarrow> string \<Rightarrow> string
    \<Rightarrow> (string \<Rightarrow> bool) option \<Rightarrow> 'u user \<Rightarrow> bool" where
  "filterQuery hide loggedInUser skills' experience' role' availability' m u =
     (user_id u \<notin> set hide \<and> user_id u \<noteq> loggedInUser \<and> isProfileComplete u
      \<and> (skills' \<noteq> [] \<longrightarrow> list_ex (\<lambda>s. s \<in> set skills') (skills u))
      \<and> (experience' \<noteq> [] \<and> experience' \<noteq> ''any'' \<longrightarrow> experience u = Some experience')
      \<and> (role' \<noteq> [] \<and> role' \<noteq> ''any'' \<longrightarrow> role u = Some role')
      \<and> (availability' \<noteq> [] \<and> availability' \<noteq> ''any'' \<longrightarrow> availability u = Some availability')
      \<and> (case m of None \<Rightarrow> True
          | Some f \<Rightarrow> (case location u of None \<Rightarrow> False | Some l \<Rightarrow> f l)))"

text \<open>The pagination of the feed: \<open>(page, limit, skip)\<close>.\<close>

definition pagination :: "query \<Rightarrow> int \<times> int \<times> int" where
  "pagination q =
     (let page = parsePositiveInt (q_page q) 1;
          limit = parsePositiveInt (q_limit q) 10;
          limit = (if limit > 50 then 50 else limit);
          skip = (page - 1) * limit
      in (page, limit, skip))"

text \<open>\<open>regex p\<close> compiles the pattern \<open>p\<close> with the option \<^verbatim>\<open>i\<close>: \<open>None\<close> when the
  store rejects the pattern (the query throws), else the matcher.\<close>

definition feed :: "(string \<Rightarrow> (string \<Rightarrow> bool) option) \<Rightarrow> 'u user list \<Rightarrow> 'u ledger \<Rightarrow> 'u
    \<Rightarrow> query \<Rightarrow> 'u feed_response" where
  "feed regex users ledger loggedInUser q =
     (case pagination q of (page, limit, skip) \<Rightarrow>
        let skills' = normalizeSkills (q_skills q);
            experience' = normalizeString (q_experience q);
            role' = normalizeString (q_role q);
            availability' = normalizeString (q_availability q);
            location' = normalizeString (q_location q);
            hide = hideUsersFromFeed ledger loggedInUser
        in if location' \<noteq> [] \<and> regex location' = None
           then FeedError 400 (ErrMessage RegexError)
           else
             let m = (if location' \<noteq> [] then regex location' else None);
                 found = take (nat (limit + 1)) (drop (nat skip)
                   (filter (filterQuery hide loggedInUser skills' experience' role'
                      availability' m) users));
                 hasMore = (int (length found) > limit);
                 sliced = (if hasMore then take (nat limit) found else found)
             in FeedData sliced page limit hasMore)"

text \<open>The documents that match the feed's \<^verbatim>\<open>filterQuery\<close>, before \<^verbatim>\<open>skip\<close> and
  \<^verbatim>\<open>limit\<close>: the eligible candidates.\<close>

definition candidates :: "(string \<Rightarrow> (string \<Rightarrow> bool) option) \<Rightarrow> 'u user list \<Rightarrow> 'u ledger
    \<Rightarrow> 'u \<Rightarrow> query \<Rightarrow> 'u user list" where
  "candidates regex users ledger loggedInUser q =
     (let location' = normalizeString (q_location q)
      in filter (filterQuery (hideUsersFromFeed ledger loggedInUser) loggedInUser
           (normalizeSkills (q_skills q)) (normalizeString (q_experience q))
           (normalizeString (q_role q)) (normalizeString (q_availability q))
           (if location' \<noteq> [] then regex location' else None)) users)"

text \<open>The pattern of the location filter is accepted by the store (or there is none).\<close>

definition location_ok :: "(string \<Rightarrow> (string \<Rightarrow> bool) option) \<Rightarrow> query \<Rightarrow> bool" where
  "location_ok regex q =
     (normalizeString (q_location q) = [] \<or> regex (normalizeString (q_location q)) \<noteq> None)"

text \<open>The user appears in the feed's \<^verbatim>\<open>data\<close>.\<close>

fun in_feed :: "'u feed_response \<Rightarrow> 'u \<Rightarrow> bool" where
  "in_feed (FeedData d p l h) u = (u \<in> user_id ` set d)"
| "in_feed (FeedError c m) u = False"

subsection \<open>Sequences of swipes\<close>

datatype 'u swipe = SwipeLeft 'u "'u body_id" | SwipeRight 'u "'u body_id"

fun step :: "'u user list \<Rightarrow> 'u ledger \<Rightarrow> 'u swipe \<Rightarrow> 'u ledger" where
  "step users ledger (SwipeLeft actor body) = snd (swipe_left users actor body ledger)"
| "step users ledger (SwipeRight actor body) = snd (swipe_right users actor body ledger)"

text \<open>A sequence of swipe requests, each with the user collection it finds.\<close>

definition run :: "('u user list \<times> 'u swipe) list \<Rightarrow> 'u ledger \<Rightarrow> 'u ledger" where
  "run reqs ledger = foldl (\<lambda>l (users, op). step users l op) ledger reqs"

subsection \<open>Ledger invariants and the status state machine\<close>

text \<open>At most one record per ordered pair.\<close>

definition unique_pairs :: "'u ledger \<Rightarrow> bool" where
  "unique_pairs ledger = distinct (map (\<lambda>r. (fromUserId r, toUserId r)) ledger)"

text \<open>No record from a user to themselves.\<close>

definition no_self_request :: "'u ledger \<Rightarrow> bool" where
  "no_self_request ledger = list_all (\<lambda>r. fromUserId r \<noteq> toUserId r) ledger"

text \<open>Some record links the two users, in either direction.\<close>

definition linked :: "'u ledger \<Rightarrow> 'u \<Rightarrow> 'u \<Rightarrow> bool" where
  "linked ledger a b =
     list_ex (\<lambda>r. (fromUserId r = a \<and> toUserId r = b) \<or> (fromUserId r = b \<and> toUserId r = a))
       ledger"

text \<open>The state of an ordered pair: \<open>None\<close> when it has no record.\<close>

definition status_of :: "'u ledger \<Rightarrow> 'u \<Rightarrow> 'u \<Rightarrow> status option" where
  "status_of ledger a b = map_option status (findOne ledger a b)"

text \<open>A match: both directional records are accepted.\<close>

definition is_match :: "'u ledger \<Rightarrow> 'u \<Rightarrow> 'u \<Rightarrow> bool" where
  "is_match ledger a b =
     (status_of ledger a b = Some accepted \<and> status_of ledger b a = Some accepted)"

text \<open>The states reachable from a state along \<open>\<emptyset> \<rightarrow> interested | ignored\<close>,
  \<open>interested \<rightarrow> accepted\<close>.\<close>

fun forward :: "status option \<Rightarrow> status option \<Rightarrow> bool" where
  "forward None s = True"
| "forward (Some interested) s = (s = Some interested \<or> s = Some accepted)"
| "forward (Some ignored) s = (s = Some ignored)"
| "forward (Some accepted) s = (s = Some accepted)"

text \<open>The edges of the state machine of an ordered pair.\<close>

inductive transition :: "status option \<Rightarrow> status option \<Rightarrow> bool" where
  first_right: "transition None (Some interested)"
| first_left: "transition None (Some ignored)"
| match: "transition (Some interested) (Some accepted)"

subsection \<open>Example data\<close>

text \<open>A user with a complete profile and the skill \<^verbatim>\<open>go\<close>, a request without query
  parameters, and a store that accepts every location pattern and matches every location.\<close>

definition complete_user :: "'u \<Rightarrow> 'u user" where
  "complete_user i = \<lparr>user_id = i, isProfileComplete = True, skills = [''go''],
     experience = None, role = None, availability = None, location = None\<rparr>"

definition empty_query :: query where
  "empty_query = \<lparr>q_page = QUndefined, q_limit = QUndefined, q_skills = QUndefined,
     q_experience = QUndefined, q_role = QUndefined, q_availability = QUndefined,
     q_location = QUndefined\<rparr>"

definition any_regex :: "string \<Rightarrow> (string \<Rightarrow> bool) option" where
  "any_regex p = Some (\<lambda>s. True)"

definition sixty_users :: "nat user list" where
  "sixty_users = map complete_user [1..<61]"

section \<open>Properties\<close>

subsection \<open>Store operations and the ledger\<close>

lemma findOne_None_iff:
  "findOne ledger a b = None \<longleftrightarrow> (a, b) \<notin> set (map (\<lambda>r. (fromUserId r, toUserId r)) ledger)"
  by (auto simp: findOne_def find_None_iff)

lemma findOneInterested_Some_D:
  "findOneInterested ledger a b = Some r \<Longrightarrow>
     r \<in> set ledger \<and> fromUserId r = a \<and> toUserId r = b \<and> status r = interested"
  by (auto simp: findOneInterested_def find_Some_iff)

lemma findOneInterested_None_iff:
  "findOneInterested ledger a b = None \<longleftrightarrow>
     (\<forall>r\<in>set ledger. \<not> (fromUserId r = a \<and> toUserId r = b \<and> status r = interested))"
  by (auto simp: findOneInterested_def find_None_iff)

lemma find_append_case:
  "find P (xs @ ys) = (case find P xs of None \<Rightarrow> find P ys | Some r \<Rightarrow> Some r)"
  by (induction xs) simp_all

lemma findOne_append:
  "findOne (xs @ ys) a b = (case findOne xs a b of None \<Rightarrow> findOne ys a b | Some r \<Rightarrow> Some r)"
  unfolding findOne_def by (rule find_append_case)

lemma find_holds: "find P xs = Some r \<Longrightarrow> P r"
  by (induction xs) (simp_all split: if_splits)

lemma find_map_preserve:
  "(\<And>r. P (f r) = P r) \<Longrightarrow> find P (map f xs) = map_option f (find P xs)"
  by (induction xs) simp_all

lemma findOne_updateMany:
  "findOne (updateMany a b ledger) x y =
     map_option (\<lambda>r. if (x = a \<and> y = b) \<or> (x = b \<and> y = a) then r\<lparr>status := accepted\<rparr> else r)
       (findOne ledger x y)"
proof -
  let ?f = "\<lambda>r::'a connection_request.
    if (fromUserId r = a \<and> toUserId r = b) \<or> (fromUserId r = b \<and> toUserId r = a)
    then r\<lparr>status := accepted\<rparr> else r"
  let ?P = "\<lambda>r::'a connection_request. fromUserId r = x \<and> toUserId r = y"
  have "find ?P (map ?f ledger) = map_option ?f (find ?P ledger)"
    by (rule find_map_preserve) simp
  moreover have "map_option ?f (find ?P ledger) =
      map_option (\<lambda>r. if (x = a \<and> y = b) \<or> (x = b \<and> y = a) then r\<lparr>status := accepted\<rparr> else r)
        (find ?P ledger)"
  proof (cases "find ?P ledger")
    case None
    then show ?thesis by simp
  next
    case (Some r)
    then have "fromUserId r = x \<and> toUserId r = y" by (rule find_holds)
    with Some show ?thesis by simp
  qed
  ultimately show ?thesis
    by (simp add: findOne_def updateMany_def)
qed

lemma updateMany_status:
  assumes "r \<in> set (updateMany a b ledger)"
    and "(fromUserId r = a \<and> toUserId r = b) \<or> (fromUserId r = b \<and> toUserId r = a)"
  shows "status r = accepted"
proof -
  let ?P = "\<lambda>r::'a connection_request.
    (fromUserId r = a \<and> toUserId r = b) \<or> (fromUserId r = b \<and> toUserId r = a)"
  from assms(1) obtain r0 where r0: "r = (if ?P r0 then r0\<lparr>status := accepted\<rparr> else r0)"
    unfolding updateMany_def set_map by (rule imageE)
  show ?thesis
  proof (cases "?P r0")
    case True
    with r0 show ?thesis by simp
  next
    case False
    with r0 have "r = r0" by simp
    with False assms(2) show ?thesis by blast
  qed
qed

lemma unique_findOne:
  "unique_pairs ledger \<Longrightarrow> r \<in> set ledger \<Longrightarrow> findOne ledger (fromUserId r) (toUserId r) = Some r"
  by (induction ledger) (auto simp: unique_pairs_def findOne_def image_iff)

lemma pairs_updateMany:
  "map (\<lambda>r. (fromUserId r, toUserId r)) (updateMany a b ledger) =
     map (\<lambda>r. (fromUserId r, toUserId r)) ledger"
  by (induction ledger) (auto simp: updateMany_def)

lemma swipe_left_ledger:
  "snd (swipe_left users actor body ledger) =
     (case body of
        ObjectId target \<Rightarrow>
          if findById users target \<noteq> None \<and> findOne ledger actor target = None
             \<and> actor \<noteq> target
          then ledger @ [\<lparr>fromUserId = actor, toUserId = target, status = ignored\<rparr>]
          else ledger
      | _ \<Rightarrow> ledger)"
  by (auto simp: swipe_left_def save_def split: body_id.splits option.splits)

lemma swipe_right_ledger:
  "snd (swipe_right users actor body ledger) =
     (case body of
        ObjectId target \<Rightarrow>
          if findById users target \<noteq> None \<and> findOne ledger actor target = None
             \<and> actor \<noteq> target
          then (if findOneInterested ledger target actor \<noteq> None
                then updateMany actor target
                  (ledger @ [\<lparr>fromUserId = actor, toUserId = target, status = interested\<rparr>])
                else ledger @ [\<lparr>fromUserId = actor, toUserId = target, status = interested\<rparr>])
          else ledger
      | _ \<Rightarrow> ledger)"
  by (auto simp: swipe_right_def save_def Let_def split: body_id.splits option.splits)

lemma unique_pairs_append:
  "unique_pairs ledger \<Longrightarrow> findOne ledger (fromUserId r) (toUserId r) = None \<Longrightarrow>
     unique_pairs (ledger @ [r])"
  by (auto simp: unique_pairs_def findOne_None_iff)

lemma unique_pairs_updateMany:
  "unique_pairs (updateMany a b ledger) = unique_pairs ledger"
  by (simp add: unique_pairs_def pairs_updateMany)

lemma step_unique: "unique_pairs ledger \<Longrightarrow> unique_pairs (step users ledger op)"
  by (cases op)
    (auto simp: swipe_left_ledger swipe_right_ledger unique_pairs_updateMany
      intro!: unique_pairs_append split: body_id.splits)

lemma forward_refl: "forward s s"
  by (cases "(s, s)" rule: forward.cases) auto

lemma forward_trans: "forward s t \<Longrightarrow> forward t u \<Longrightarrow> forward s u"
  by (cases "(s, t)" rule: forward.cases) auto

lemma status_of_append:
  "status_of (ledger @ [r]) a b =
     (case status_of ledger a b of
        None \<Rightarrow> if fromUserId r = a \<and> toUserId r = b then Some (status r) else None
      | Some s \<Rightarrow> Some s)"
  by (auto simp: status_of_def findOne_append split: option.splits) (auto simp: findOne_def)

lemma unique_interested:
  assumes "unique_pairs ledger" and "findOneInterested ledger a b \<noteq> None"
  shows "status_of ledger a b = Some interested"
proof -
  from assms(2) obtain r where "findOneInterested ledger a b = Some r" by auto
  then have r: "r \<in> set ledger" "fromUserId r = a" "toUserId r = b" "status r = interested"
    using findOneInterested_Some_D by fastforce+
  with unique_findOne [OF assms(1) r(1)] show ?thesis
    by (simp add: status_of_def)
qed

lemma step_forward:
  assumes "unique_pairs ledger"
  shows "forward (status_of ledger a b) (status_of (step users ledger op) a b)"
proof -
  have app: "forward (status_of ledger a b) (status_of (ledger @ [r]) a b)" for r
    by (cases "status_of ledger a b") (auto simp: status_of_append forward_refl)
  have upd: "forward (status_of ledger a b)
      (status_of (updateMany x y (ledger @ [\<lparr>fromUserId = x, toUserId = y, status = interested\<rparr>])) a b)"
    if "findOneInterested ledger y x \<noteq> None" "findOne ledger x y = None" for x y
  proof (cases "(a = x \<and> b = y) \<or> (a = y \<and> b = x)")
    case False
    then have "(\<lambda>r::'a connection_request.
        if (a = x \<and> b = y) \<or> (a = y \<and> b = x) then r\<lparr>status := accepted\<rparr> else r) = (\<lambda>r. r)"
      by auto
    then show ?thesis
      using app [of "\<lparr>fromUserId = x, toUserId = y, status = interested\<rparr>"]
      by (simp add: status_of_def findOne_updateMany option.map_ident)
  next
    case True
    then consider "a = x \<and> b = y" | "a = y \<and> b = x" by blast
    then show ?thesis
    proof cases
      case 1
      with that(2) show ?thesis by (simp add: status_of_def)
    next
      case 2
      with unique_interested [OF assms that(1)] have "status_of ledger a b = Some interested"
        by simp
      moreover have "status_of (updateMany x y
          (ledger @ [\<lparr>fromUserId = x, toUserId = y, status = interested\<rparr>])) a b = Some accepted"
        using 2 calculation
        by (auto simp: status_of_def findOne_updateMany findOne_append option.map_comp
            split: option.splits)
      ultimately show ?thesis by simp
    qed
  qed
  show ?thesis
    by (cases op)
      (auto simp: swipe_left_ledger swipe_right_ledger forward_refl app upd
        split: body_id.splits)
qed

subsection \<open>Pagination, feed and runs\<close>

lemma parsePositiveInt_pos: "1 \<le> fallback \<Longrightarrow> 1 \<le> parsePositiveInt v fallback"
  by (simp add: parsePositiveInt_def split: option.splits)

lemma parsePositiveInt_fallback:
  "parseInt10 (String_of v) = None \<or> (\<exists>n. parseInt10 (String_of v) = Some n \<and> n \<le> 0) \<Longrightarrow>
     parsePositiveInt v fallback = fallback"
  by (auto simp: parsePositiveInt_def)

lemma parseInt10_undefined: "parseInt10 (String_of QUndefined) = None"
  by (simp add: parseInt10_def isWhiteSpace_def isDigit_def)

lemma pagination_eq:
  "pagination q =
     (parsePositiveInt (q_page q) 1, min 50 (parsePositiveInt (q_limit q) 10),
      (parsePositiveInt (q_page q) 1 - 1) * min 50 (parsePositiveInt (q_limit q) 10))"
  by (simp add: pagination_def Let_def min_def)

lemma feed_eq:
  assumes "location_ok regex q" and "pagination q = (p, l, s)"
  shows "feed regex users ledger a q =
     FeedData (take (nat l) (drop (nat s) (candidates regex users ledger a q))) p l
       (l < int (length (drop (nat s) (candidates regex users ledger a q))))"
proof -
  let ?C = "drop (nat s) (candidates regex users ledger a q)"
  have l: "1 \<le> l"
    using assms(2) parsePositiveInt_pos [of 10 "q_limit q"] by (auto simp: pagination_eq)
  have 1: "(l < int (length (take (nat (l + 1)) ?C))) = (l < int (length ?C))"
    using l by auto
  have 2: "take (nat l) (take (nat (l + 1)) ?C) = take (nat l) ?C"
    using l by (simp add: min_def)
  have 3: "\<not> l < int (length ?C) \<Longrightarrow> take (nat (l + 1)) ?C = take (nat l) ?C"
    using l by simp
  show ?thesis
    using assms 1 2 3
    by (auto simp: feed_def candidates_def location_ok_def Let_def)
qed

lemma feed_error:
  "\<not> location_ok regex q \<Longrightarrow> feed regex users ledger a q = FeedError 400 (ErrMessage RegexError)"
  by (auto simp: feed_def location_ok_def Let_def split: prod.splits)

lemma in_feed_candidates:
  "in_feed (feed regex users ledger a q) u \<Longrightarrow>
     u \<in> user_id ` set (candidates regex users ledger a q)"
proof (cases "location_ok regex q")
  case False
  assume "in_feed (feed regex users ledger a q) u"
  with False show ?thesis by (simp add: feed_error)
next
  case True
  assume *: "in_feed (feed regex users ledger a q) u"
  obtain p l s where pg: "pagination q = (p, l, s)" by (cases "pagination q") auto
  from * show ?thesis
    unfolding feed_eq [OF True pg]
    by (auto dest!: in_set_takeD in_set_dropD)
qed

lemma candidates_hidden:
  "u \<in> user_id ` set (candidates regex users ledger a q) \<Longrightarrow>
     u \<notin> set (hideUsersFromFeed ledger a) \<and> u \<noteq> a"
  by (auto simp: candidates_def filterQuery_def Let_def)

lemma linked_iff:
  "linked ledger a b \<longleftrightarrow>
     (\<exists>r\<in>set ledger. (fromUserId r = a \<and> toUserId r = b) \<or> (fromUserId r = b \<and> toUserId r = a))"
  by (simp add: linked_def list_ex_iff)

lemma linked_hidden:
  "linked ledger a b \<Longrightarrow> b \<in> set (hideUsersFromFeed ledger a) \<and> a \<in> set (hideUsersFromFeed ledger b)"
  by (fastforce simp: linked_iff hideUsersFromFeed_def)

lemma linked_not_in_feed:
  "linked ledger a b \<Longrightarrow> \<not> in_feed (feed regex users ledger a q) b"
  using in_feed_candidates candidates_hidden linked_hidden by fast

lemma linked_sym: "linked ledger a b = linked ledger b a"
  by (auto simp: linked_iff)

lemma step_pairs:
  "\<exists>zs. map (\<lambda>r. (fromUserId r, toUserId r)) (step users ledger op) =
     map (\<lambda>r. (fromUserId r, toUserId r)) ledger @ zs"
  by (cases op)
    (auto simp: swipe_left_ledger swipe_right_ledger pairs_updateMany split: body_id.splits)

lemma run_snoc: "run (reqs @ [(users, op)]) ledger = step users (run reqs ledger) op"
  by (simp add: run_def)

lemma run_pairs:
  "\<exists>zs. map (\<lambda>r. (fromUserId r, toUserId r)) (run reqs ledger) =
     map (\<lambda>r. (fromUserId r, toUserId r)) ledger @ zs"
proof (induction reqs rule: rev_induct)
  case Nil
  then show ?case by (simp add: run_def)
next
  case (snoc req reqs)
  obtain users op where req: "req = (users, op)" by (cases req)
  from snoc obtain zs where zs: "map (\<lambda>r. (fromUserId r, toUserId r)) (run reqs ledger) =
     map (\<lambda>r. (fromUserId r, toUserId r)) ledger @ zs" by blast
  obtain ys where "map (\<lambda>r. (fromUserId r, toUserId r)) (step users (run reqs ledger) op) =
     map (\<lambda>r. (fromUserId r, toUserId r)) (run reqs ledger) @ ys"
    using step_pairs by blast
  with zs show ?case by (simp add: req run_snoc)
qed

lemma linked_pairs:
  "linked ledger a b \<longleftrightarrow>
     (a, b) \<in> set (map (\<lambda>r. (fromUserId r, toUserId r)) ledger)
     \<or> (b, a) \<in> set (map (\<lambda>r. (fromUserId r, toUserId r)) ledger)"
  by (auto simp: linked_iff image_iff)

lemma run_linked:
  assumes "linked ledger a b"
  shows "linked (run reqs ledger) a b"
proof -
  obtain zs where "map (\<lambda>r. (fromUserId r, toUserId r)) (run reqs ledger) =
     map (\<lambda>r. (fromUserId r, toUserId r)) ledger @ zs"
    using run_pairs by blast
  then have "set (map (\<lambda>r. (fromUserId r, toUserId r)) ledger)
      \<subseteq> set (map (\<lambda>r. (fromUserId r, toUserId r)) (run reqs ledger))"
    by simp
  with assms show ?thesis
    unfolding linked_pairs by blast
qed

lemma run_unique: "unique_pairs ledger \<Longrightarrow> unique_pairs (run reqs ledger)"
  by (induction reqs rule: rev_induct) (auto simp: run_def step_unique)

lemma run_forward:
  "unique_pairs ledger \<Longrightarrow> forward (status_of ledger a b) (status_of (run reqs ledger) a b)"
proof (induction reqs rule: rev_induct)
  case Nil
  then show ?case by (simp add: run_def forward_refl)
next
  case (snoc req reqs)
  obtain users op where req: "req = (users, op)" by (cases req)
  have "unique_pairs (run reqs ledger)"
    using snoc.prems by (rule run_unique)
  then have "forward (status_of (run reqs ledger) a b)
      (status_of (step users (run reqs ledger) op) a b)"
    by (rule step_forward)
  with snoc show ?case
    by (auto simp: req run_snoc intro: forward_trans)
qed

lemma pagination_limit_cap:
  "pagination (q\<lparr>q_limit := QString ''10000''\<rparr>) = pagination (q\<lparr>q_limit := QString ''50''\<rparr>)"
  by (simp add: pagination_eq parsePositiveInt_def parseInt10_def isWhiteSpace_def
      isDigit_def digitValue_def)

lemma candidates_limit:
  "candidates regex users ledger a (q\<lparr>q_limit := v\<rparr>) = candidates regex users ledger a q"
  by (simp add: candidates_def)

lemma location_ok_limit: "location_ok regex (q\<lparr>q_limit := v\<rparr>) = location_ok regex q"
  by (simp add: location_ok_def)

lemma feed_limit_10000:
  "feed regex users ledger a (q\<lparr>q_limit := QString ''10000''\<rparr>)
     = feed regex users ledger a (q\<lparr>q_limit := QString ''50''\<rparr>)"
proof (cases "location_ok regex q")
  case False
  then show ?thesis by (simp add: feed_error location_ok_limit)
next
  case True
  obtain p l s where pg: "pagination (q\<lparr>q_limit := QString ''50''\<rparr>) = (p, l, s)"
    by (cases "pagination (q\<lparr>q_limit := QString ''50''\<rparr>)") auto
  then have pg': "pagination (q\<lparr>q_limit := QString ''10000''\<rparr>) = (p, l, s)"
    by (simp add: pagination_limit_cap)
  from True have ok: "location_ok regex (q\<lparr>q_limit := QString ''50''\<rparr>)"
      "location_ok regex (q\<lparr>q_limit := QString ''10000''\<rparr>)"
    by (simp_all add: location_ok_limit)
  show ?thesis
    by (simp add: feed_eq [OF ok(1) pg] feed_eq [OF ok(2) pg'] candidates_limit)
qed

lemma feed_fetch:
  assumes "location_ok regex q" and "pagination q = (p, l, s)"
  shows "res_hasMore (feed regex users ledger a q) =
     (l < int (length (take (nat (l + 1)) (drop (nat s) (candidates regex users ledger a q)))))"
proof -
  have "1 \<le> l"
    using assms(2) parsePositiveInt_pos [of 10 "q_limit q"] by (auto simp: pagination_eq)
  then show ?thesis
    by (auto simp: feed_eq [OF assms])
qed

lemma swipe_left_pairs:
  "map (\<lambda>r. (fromUserId r, toUserId r)) (snd (swipe_left users actor body ledger)) =
     map (\<lambda>r. (fromUserId r, toUserId r)) ledger @
       (case body of
          ObjectId target \<Rightarrow>
            if findById users target \<noteq> None \<and> findOne ledger actor target = None
               \<and> actor \<noteq> target
            then [(actor, target)] else []
        | _ \<Rightarrow> [])"
  by (simp add: swipe_left_ledger split: body_id.splits)

lemma swipe_right_pairs:
  "map (\<lambda>r. (fromUserId r, toUserId r)) (snd (swipe_right users actor body ledger)) =
     map (\<lambda>r. (fromUserId r, toUserId r)) ledger @
       (case body of
          ObjectId target \<Rightarrow>
            if findById users target \<noteq> None \<and> findOne ledger actor target = None
               \<and> actor \<noteq> target
            then [(actor, target)] else []
        | _ \<Rightarrow> [])"
  by (simp add: swipe_right_ledger pairs_updateMany split: body_id.splits)

lemma updateMany_no_self: "no_self_request (updateMany x y l) = no_self_request l"
  by (induction l) (simp_all add: no_self_request_def updateMany_def)

lemma append_no_self:
  "no_self_request (l @ [r]) = (no_self_request l \<and> fromUserId r \<noteq> toUserId r)"
  by (simp add: no_self_request_def)

lemma step_no_self: "no_self_request ledger \<Longrightarrow> no_self_request (step users ledger op)"
  by (cases op)
    (auto simp: swipe_left_ledger swipe_right_ledger updateMany_no_self append_no_self
      split: body_id.splits)

lemma run_no_self: "no_self_request ledger \<Longrightarrow> no_self_request (run reqs ledger)"
  by (induction reqs rule: rev_induct) (auto simp: run_def step_no_self)

lemma parseInt10_None_iff:
  "parseInt10 s = None \<longleftrightarrow>
     (case (case dropWhile isWhiteSpace s of [] \<Rightarrow> []
            | c # cs \<Rightarrow> if c = CHR ''-'' \<or> c = CHR ''+'' then cs else c # cs) of
        [] \<Rightarrow> True
      | d # _ \<Rightarrow> \<not> isDigit d)"
proof -
  define t where "t = dropWhile isWhiteSpace s"
  show ?thesis
    unfolding parseInt10_def Let_def t_def [symmetric]
    by (cases t) (auto simp: takeWhile_eq_Nil_iff split: list.splits)
qed

lemma parsePositiveInt_parsed:
  "parseInt10 (String_of v) = Some n \<Longrightarrow> 0 < n \<Longrightarrow> parsePositiveInt v fallback = n"
  by (simp add: parsePositiveInt_def)

lemma swipe_right_existing:
  assumes "findOne ledger a t = Some existing"
  shows "snd (swipe_right users a (ObjectId t) ledger) = ledger
     \<and> (findById users t \<noteq> None \<longrightarrow>
          fst (swipe_right users a (ObjectId t) ledger) =
            Response 200 (Msg ''Already swiped'') (Some existing)
              (Some (\<exists>r\<in>set ledger. fromUserId r = t \<and> toUserId r = a
                 \<and> status r = interested)))"
proof -
  have "(findOneInterested ledger t a \<noteq> None) =
      (\<exists>r\<in>set ledger. fromUserId r = t \<and> toUserId r = a \<and> status r = interested)"
    by (auto simp: findOneInterested_None_iff)
  with assms have "findById users t \<noteq> None \<longrightarrow>
      fst (swipe_right users a (ObjectId t) ledger) =
        Response 200 (Msg ''Already swiped'') (Some existing)
          (Some (\<exists>r\<in>set ledger. fromUserId r = t \<and> toUserId r = a \<and> status r = interested))"
    by (auto simp: swipe_right_def Let_def)
  moreover have "snd (swipe_right users a (ObjectId t) ledger) = ledger"
    using assms by (simp add: swipe_right_ledger)
  ultimately show ?thesis
    by (intro conjI)
qed

subsection \<open>The state machine\<close>

lemma transition_forward: "transition s t \<Longrightarrow> forward s t"
  by (induction rule: transition.induct) simp_all

lemma forward_iff_transitions: "forward s t \<longleftrightarrow> transition\<^sup>*\<^sup>* s t"
proof
  assume "transition\<^sup>*\<^sup>* s t"
  then show "forward s t"
    by (induction rule: rtranclp_induct) (auto intro: forward_refl forward_trans transition_forward)
next
  assume f: "forward s t"
  show "transition\<^sup>*\<^sup>* s t"
  proof (cases s)
    case None
    show ?thesis
    proof (cases t)
      case None
      with \<open>s = None\<close> show ?thesis by simp
    next
      case (Some x)
      with \<open>s = None\<close> show ?thesis
        by (cases x) (auto intro: transition.intros rtranclp.intros)
    qed
  next
    case (Some x)
    with f show ?thesis
      by (cases x) (auto intro: transition.intros)
  qed
qed

lemma run_length: "take (length ledger) (map (\<lambda>r. (fromUserId r, toUserId r)) (run reqs ledger))
    = map (\<lambda>r. (fromUserId r, toUserId r)) ledger"
proof -
  obtain zs where "map (\<lambda>r. (fromUserId r, toUserId r)) (run reqs ledger) =
     map (\<lambda>r. (fromUserId r, toUserId r)) ledger @ zs"
    using run_pairs by blast
  then show ?thesis by simp
qed

section \<open>Claims\<close>

subsection \<open>Swipes\<close>

text \<open>
  C1. For distinct users \<open>a\<close> and \<open>b\<close> that both exist and have no record between them:
  \<open>a\<close> swipes right on \<open>b\<close>, then \<open>b\<close> swipes right on \<open>a\<close>. The first swipe reports
  \<^verbatim>\<open>matched = false\<close> and leaves \<open>a \<rightarrow> b\<close> interested; the second reports
  \<^verbatim>\<open>matched = true\<close>, and afterwards both directional records are accepted, as is every
  record between the two. The statement is symmetric in \<open>a\<close> and \<open>b\<close>, so it covers either
  order.
\<close>

theorem mutual_right_swipe_matches:
  assumes "a \<noteq> b" and "findById users a \<noteq> None" and "findById users b \<noteq> None"
    and "\<not> linked ledger a b"
  shows "(case swipe_right users a (ObjectId b) ledger of (r1, l1) \<Rightarrow>
          case swipe_right users b (ObjectId a) l1 of (r2, l2) \<Rightarrow>
            matched r1 = Some False \<and> matched r2 = Some True
            \<and> status_of l1 a b = Some interested \<and> status_of l1 b a = None
            \<and> status_of l2 a b = Some accepted \<and> status_of l2 b a = Some accepted
            \<and> (\<forall>r\<in>set l2. (fromUserId r = a \<and> toUserId r = b) \<or> (fromUserId r = b \<and> toUserId r = a)
                  \<longrightarrow> status r = accepted))"
proof -
  let ?n1 = "\<lparr>fromUserId = a, toUserId = b, status = interested\<rparr>"
  let ?n2 = "\<lparr>fromUserId = b, toUserId = a, status = interested\<rparr>"
  let ?l1 = "ledger @ [?n1]"
  let ?l2 = "updateMany b a (?l1 @ [?n2])"
  from assms(4) have none: "findOne ledger a b = None" "findOne ledger b a = None"
    by (auto simp: linked_pairs findOne_None_iff)
  then have noi: "findOneInterested ledger b a = None"
    by (auto simp: findOneInterested_None_iff findOne_None_iff image_iff)
  have s1: "swipe_right users a (ObjectId b) ledger =
      (Response 200 (Msg ''Connection request sent'') (Some ?n1) (Some False), ?l1)"
    using assms(1,3) none noi by (auto simp: swipe_right_def save_def)
  have f1: "findOne ?l1 b a = None"
    using none assms(1) by (simp add: findOne_append) (simp add: findOne_def)
  have i1: "findOneInterested ?l1 a b \<noteq> None"
    by (auto simp: findOneInterested_None_iff)
  have s2: "swipe_right users b (ObjectId a) ?l1 =
      (Response 200 (Msg ''It's a match!'') (Some ?n2) (Some True), ?l2)"
    using assms(1,2) f1 i1 by (auto simp: swipe_right_def save_def)
  have st1: "status_of ?l1 a b = Some interested" "status_of ?l1 b a = None"
    using none assms(1) by (auto simp: status_of_append) (auto simp: status_of_def)
  have st2: "status_of ?l2 a b = Some accepted" "status_of ?l2 b a = Some accepted"
    using none assms(1)
    by (auto simp: status_of_def findOne_updateMany findOne_append) (auto simp: findOne_def)
  have all: "\<forall>r\<in>set ?l2. (fromUserId r = a \<and> toUserId r = b) \<or> (fromUserId r = b \<and> toUserId r = a)
      \<longrightarrow> status r = accepted"
  proof (intro ballI impI)
    fix r
    assume "r \<in> set ?l2"
      and "(fromUserId r = a \<and> toUserId r = b) \<or> (fromUserId r = b \<and> toUserId r = a)"
    then show "status r = accepted"
      using updateMany_status [of r b a "?l1 @ [?n2]"] by blast
  qed
  show ?thesis
    using st1 st2 all by (simp add: s1 s2)
qed

theorem mutual_right_swipe_matches_witness:
  "(1::nat) \<noteq> 2
   \<and> findById [complete_user (1::nat), complete_user 2] 1 \<noteq> None
   \<and> findById [complete_user (1::nat), complete_user 2] 2 \<noteq> None
   \<and> \<not> linked ([] :: nat ledger) 1 2
   \<and> (case swipe_right [complete_user (1::nat), complete_user 2] 1 (ObjectId 2) [] of
        (r1, l1) \<Rightarrow>
          case swipe_right [complete_user (1::nat), complete_user 2] 2 (ObjectId 1) l1 of
            (r2, l2) \<Rightarrow>
              matched r1 = Some False \<and> matched r2 = Some True
              \<and> status_of l1 1 2 = Some interested \<and> status_of l1 2 1 = None
              \<and> status_of l2 1 2 = Some accepted \<and> status_of l2 2 1 = Some accepted
              \<and> (\<forall>r\<in>set l2. (fromUserId r = 1 \<and> toUserId r = 2)
                    \<or> (fromUserId r = 2 \<and> toUserId r = 1) \<longrightarrow> status r = accepted))"
proof -
  have h: "(1::nat) \<noteq> 2"
    "findById [complete_user (1::nat), complete_user 2] 1 \<noteq> None"
    "findById [complete_user (1::nat), complete_user 2] 2 \<noteq> None"
    "\<not> linked ([] :: nat ledger) 1 2"
    by (simp_all add: findById_def complete_user_def linked_def)
  from h mutual_right_swipe_matches [OF h] show ?thesis
    by blast
qed

text \<open>
  C2. When a record \<open>a \<rightarrow> t\<close> exists, a repeated right swipe returns that record and
  writes nothing, and it reports \<^verbatim>\<open>matched\<close> as: some record \<open>t \<rightarrow> a\<close> with status
  interested exists (\<open>swipe_right_existing\<close>). That is not the match status. Users 1 and 2
  swipe right on each other: the second swipe reports a match and both records are
  accepted. User 1 then repeats the right swipe: the ledger is as it was, the existing
  record is returned, and the answer is \<^verbatim>\<open>matched = false\<close>, since the reciprocal record
  is accepted and no longer interested. Conversely, with \<open>1 \<rightarrow> 2\<close> ignored and \<open>2 \<rightarrow> 1\<close>
  interested there is no match, and the repeated right swipe of 1 reports
  \<^verbatim>\<open>matched = true\<close>.
\<close>

theorem repeat_right_swipe_after_match:
  "(case swipe_right [complete_user (1::nat), complete_user 2] 1 (ObjectId 2) [] of
      (r1, l1) \<Rightarrow>
        case swipe_right [complete_user (1::nat), complete_user 2] 2 (ObjectId 1) l1 of
          (r2, l2) \<Rightarrow>
            case swipe_right [complete_user (1::nat), complete_user 2] 1 (ObjectId 2) l2 of
              (r3, l3) \<Rightarrow>
                matched r2 = Some True \<and> is_match l2 1 2
                \<and> l3 = l2 \<and> data r3 = findOne l2 1 2 \<and> matched r3 = Some False)
   \<and> \<not> is_match [\<lparr>fromUserId = (1::nat), toUserId = 2, status = ignored\<rparr>,
                   \<lparr>fromUserId = 2, toUserId = 1, status = interested\<rparr>] 1 2
   \<and> matched (fst (swipe_right [complete_user (1::nat), complete_user 2] 1 (ObjectId 2)
         [\<lparr>fromUserId = 1, toUserId = 2, status = ignored\<rparr>,
          \<lparr>fromUserId = 2, toUserId = 1, status = interested\<rparr>])) = Some True"
  by (simp add: swipe_right_def save_def findById_def findOne_def findOneInterested_def
      updateMany_def complete_user_def is_match_def status_of_def)

text \<open>
  C7. A swipe, left or right, whose body has no \<^verbatim>\<open>toUserId\<close> answers 400; a swipe whose
  \<^verbatim>\<open>toUserId\<close> names no user answers 404; in both cases the ledger is as it was. More
  generally, whenever a swipe answers with a status other than 200, the ledger is as it was.
\<close>

theorem swipe_failure_no_write:
  "code (fst (swipe_left users a Missing ledger)) = 400
   \<and> snd (swipe_left users a Missing ledger) = ledger
   \<and> code (fst (swipe_right users a Missing ledger)) = 400
   \<and> snd (swipe_right users a Missing ledger) = ledger
   \<and> (findById users t = None \<longrightarrow>
        code (fst (swipe_left users a (ObjectId t) ledger)) = 404
        \<and> snd (swipe_left users a (ObjectId t) ledger) = ledger
        \<and> code (fst (swipe_right users a (ObjectId t) ledger)) = 404
        \<and> snd (swipe_right users a (ObjectId t) ledger) = ledger)
   \<and> (code (fst (swipe_left users a body ledger)) \<noteq> 200
        \<longrightarrow> snd (swipe_left users a body ledger) = ledger)
   \<and> (code (fst (swipe_right users a body ledger)) \<noteq> 200
        \<longrightarrow> snd (swipe_right users a body ledger) = ledger)"
proof -
  have "code (fst (swipe_left users a body ledger)) \<noteq> 200
      \<longrightarrow> snd (swipe_left users a body ledger) = ledger"
    by (simp add: swipe_left_def save_def split: body_id.splits option.splits)
  moreover have "code (fst (swipe_right users a body ledger)) \<noteq> 200
      \<longrightarrow> snd (swipe_right users a body ledger) = ledger"
    by (simp add: swipe_right_def save_def Let_def split: body_id.splits option.splits)
  ultimately show ?thesis
    by (simp add: swipe_left_def swipe_right_def)
qed

theorem swipe_failure_no_write_witness:
  "findById [complete_user (1::nat)] 2 = None
   \<and> code (fst (swipe_left [complete_user (1::nat)] 1 (ObjectId 2) [])) = 404
   \<and> snd (swipe_left [complete_user (1::nat)] 1 (ObjectId 2) []) = []
   \<and> code (fst (swipe_right [complete_user (1::nat)] 1 (ObjectId 2) [])) = 404
   \<and> snd (swipe_right [complete_user (1::nat)] 1 (ObjectId 2) []) = []"
proof -
  have h: "findById [complete_user (1::nat)] 2 = None"
    by (simp add: findById_def complete_user_def)
  with swipe_failure_no_write [of "[complete_user (1::nat)]" 1 "[]" 2 "ObjectId 2"] show ?thesis
    by blast
qed

text \<open>
  C9. When a record \<open>a \<rightarrow> t\<close> exists, with any status, a left swipe of \<open>a\<close> on \<open>t\<close> writes
  nothing: the ledger is as it was, so the pair keeps its status; and when \<open>t\<close> is a
  user the response is \<^verbatim>\<open>Already swiped\<close> with the existing record.
\<close>

theorem left_swipe_on_existing_no_write:
  assumes "findOne ledger a t = Some existing"
  shows "snd (swipe_left users a (ObjectId t) ledger) = ledger
     \<and> status_of (snd (swipe_left users a (ObjectId t) ledger)) a t = Some (status existing)
     \<and> (findById users t \<noteq> None \<longrightarrow>
          fst (swipe_left users a (ObjectId t) ledger) =
            Response 200 (Msg ''Already swiped'') (Some existing) None)"
proof -
  have "snd (swipe_left users a (ObjectId t) ledger) = ledger"
    using assms by (simp add: swipe_left_ledger)
  moreover have "findById users t \<noteq> None \<longrightarrow>
      fst (swipe_left users a (ObjectId t) ledger) =
        Response 200 (Msg ''Already swiped'') (Some existing) None"
    using assms by (auto simp: swipe_left_def)
  ultimately show ?thesis
    using assms by (simp add: status_of_def)
qed

theorem left_swipe_on_existing_no_write_witness:
  "findOne [\<lparr>fromUserId = (1::nat), toUserId = 2, status = interested\<rparr>] 1 2
     = Some \<lparr>fromUserId = 1, toUserId = 2, status = interested\<rparr>
   \<and> findById [complete_user (2::nat)] 2 \<noteq> None
   \<and> swipe_left [complete_user (2::nat)] 1 (ObjectId 2)
        [\<lparr>fromUserId = 1, toUserId = 2, status = interested\<rparr>]
     = (Response 200 (Msg ''Already swiped'')
          (Some \<lparr>fromUserId = 1, toUserId = 2, status = interested\<rparr>) None,
        [\<lparr>fromUserId = 1, toUserId = 2, status = interested\<rparr>])"
proof -
  have h: "findOne [\<lparr>fromUserId = (1::nat), toUserId = 2, status = interested\<rparr>] 1 2
     = Some \<lparr>fromUserId = 1, toUserId = 2, status = interested\<rparr>"
    by (simp add: findOne_def)
  have u: "findById [complete_user (2::nat)] 2 \<noteq> None"
    by (simp add: findById_def complete_user_def)
  from h u left_swipe_on_existing_no_write [OF h, of "[complete_user (2::nat)]"] show ?thesis
    by (metis prod.collapse)
qed

text \<open>
  C8. Every record keeps \<open>fromUserId \<noteq> toUserId\<close>: from a ledger without self-requests, a
  swipe (left or right, whatever its body) and any sequence of swipes leave a ledger
  without self-requests; and a swipe of a user on their own identifier leaves the ledger
  as it was. The handlers do not compare the target with the actor: the store refuses the
  record.
\<close>

theorem swipes_store_no_self_request:
  assumes "no_self_request ledger"
  shows "no_self_request (snd (swipe_left users actor body ledger))
     \<and> no_self_request (snd (swipe_right users actor body ledger))
     \<and> no_self_request (run reqs ledger)
     \<and> snd (swipe_left users actor (ObjectId actor) ledger) = ledger
     \<and> snd (swipe_right users actor (ObjectId actor) ledger) = ledger"
proof -
  have "no_self_request (step users ledger (SwipeLeft actor body))"
    "no_self_request (step users ledger (SwipeRight actor body))"
    using assms by (rule step_no_self)+
  moreover have "no_self_request (run reqs ledger)"
    using assms by (rule run_no_self)
  moreover have "snd (swipe_left users actor (ObjectId actor) ledger) = ledger"
    "snd (swipe_right users actor (ObjectId actor) ledger) = ledger"
    by (simp_all add: swipe_left_ledger swipe_right_ledger)
  ultimately show ?thesis
    by simp
qed

theorem swipes_store_no_self_request_witness:
  "no_self_request [\<lparr>fromUserId = (2::nat), toUserId = 1, status = interested\<rparr>]
   \<and> fst (swipe_left [complete_user (1::nat)] 1 (ObjectId 1)
        [\<lparr>fromUserId = 2, toUserId = 1, status = interested\<rparr>])
       = Response 400 (ErrMessage ValidationError) None None
   \<and> snd (swipe_left [complete_user (1::nat)] 1 (ObjectId 1)
        [\<lparr>fromUserId = 2, toUserId = 1, status = interested\<rparr>])
       = [\<lparr>fromUserId = 2, toUserId = 1, status = interested\<rparr>]
   \<and> snd (swipe_right [complete_user (1::nat)] 1 (ObjectId 1)
        [\<lparr>fromUserId = 2, toUserId = 1, status = interested\<rparr>])
       = [\<lparr>fromUserId = 2, toUserId = 1, status = interested\<rparr>]
   \<and> no_self_request (run
        [([complete_user (1::nat), complete_user 2], SwipeRight 1 (ObjectId 1)),
         ([complete_user 1, complete_user 2], SwipeRight 1 (ObjectId 2))]
        [\<lparr>fromUserId = 2, toUserId = 1, status = interested\<rparr>])"
proof -
  have h: "no_self_request [\<lparr>fromUserId = (2::nat), toUserId = 1, status = interested\<rparr>]"
    by (simp add: no_self_request_def)
  have r: "fst (swipe_left [complete_user (1::nat)] 1 (ObjectId 1)
        [\<lparr>fromUserId = 2, toUserId = 1, status = interested\<rparr>])
       = Response 400 (ErrMessage ValidationError) None None"
    by (simp add: swipe_left_def findById_def complete_user_def findOne_def save_def)
  from h r swipes_store_no_self_request [OF h, of "[complete_user (1::nat)]" 1 "ObjectId 1"
      "[([complete_user (1::nat), complete_user 2], SwipeRight 1 (ObjectId 1)),
        ([complete_user 1, complete_user 2], SwipeRight 1 (ObjectId 2))]"]
  show ?thesis
    by blast
qed

subsection \<open>The state machine under sequences of swipes\<close>

text \<open>
  C4. From a ledger with at most one record per ordered pair, after any sequence of swipes:
  the state of every ordered pair is reachable from its former state along the edges
  \<open>\<emptyset> \<rightarrow> interested\<close>, \<open>\<emptyset> \<rightarrow> ignored\<close>, \<open>interested \<rightarrow> accepted\<close>; a pair that was
  ignored is still ignored; the records of the former ledger are all still there, in place
  and between the same users; and the ledger still has at most one record per ordered pair.
\<close>

theorem status_only_moves_forward:
  assumes "unique_pairs ledger"
  shows "transition\<^sup>*\<^sup>* (status_of ledger a b) (status_of (run reqs ledger) a b)
     \<and> forward (status_of ledger a b) (status_of (run reqs ledger) a b)
     \<and> (status_of ledger a b = Some ignored
          \<longrightarrow> status_of (run reqs ledger) a b = Some ignored)
     \<and> take (length ledger) (map (\<lambda>r. (fromUserId r, toUserId r)) (run reqs ledger))
          = map (\<lambda>r. (fromUserId r, toUserId r)) ledger
     \<and> unique_pairs (run reqs ledger)"
proof -
  have f: "forward (status_of ledger a b) (status_of (run reqs ledger) a b)"
    using assms by (rule run_forward)
  then have "status_of ledger a b = Some ignored
      \<longrightarrow> status_of (run reqs ledger) a b = Some ignored"
    by auto
  with f run_length [of ledger reqs] run_unique [OF assms, of reqs] show ?thesis
    by (simp add: forward_iff_transitions)
qed

theorem status_only_moves_forward_witness:
  "unique_pairs [\<lparr>fromUserId = (2::nat), toUserId = 1, status = interested\<rparr>,
                 \<lparr>fromUserId = 3, toUserId = 1, status = ignored\<rparr>]
   \<and> status_of [\<lparr>fromUserId = (2::nat), toUserId = 1, status = interested\<rparr>,
                 \<lparr>fromUserId = 3, toUserId = 1, status = ignored\<rparr>] 3 1 = Some ignored
   \<and> status_of (run
        [([complete_user (1::nat), complete_user 2, complete_user 3], SwipeRight 1 (ObjectId 2)),
         ([complete_user 1, complete_user 2, complete_user 3], SwipeRight 1 (ObjectId 3)),
         ([complete_user 1, complete_user 2, complete_user 3], SwipeLeft 2 (ObjectId 1))]
        [\<lparr>fromUserId = 2, toUserId = 1, status = interested\<rparr>,
         \<lparr>fromUserId = 3, toUserId = 1, status = ignored\<rparr>]) 3 1 = Some ignored"
proof -
  have h: "unique_pairs [\<lparr>fromUserId = (2::nat), toUserId = 1, status = interested\<rparr>,
                 \<lparr>fromUserId = 3, toUserId = 1, status = ignored\<rparr>]"
    by (simp add: unique_pairs_def)
  have i: "status_of [\<lparr>fromUserId = (2::nat), toUserId = 1, status = interested\<rparr>,
                 \<lparr>fromUserId = 3, toUserId = 1, status = ignored\<rparr>] 3 1 = Some ignored"
    by (simp add: status_of_def findOne_def)
  from h i status_only_moves_forward [OF h, of 3 1
      "[([complete_user (1::nat), complete_user 2, complete_user 3], SwipeRight 1 (ObjectId 2)),
        ([complete_user 1, complete_user 2, complete_user 3], SwipeRight 1 (ObjectId 3)),
        ([complete_user 1, complete_user 2, complete_user 3], SwipeLeft 2 (ObjectId 1))]"]
  show ?thesis
    by blast
qed

subsection \<open>Feed\<close>

text \<open>
  C3. Once a record between \<open>a\<close> and \<open>b\<close> exists, in either direction and with any
  status, then after any further sequence of swipes, for every query (filters and
  pagination), every user collection and every store's pattern matcher, \<open>b\<close> is not in the
  feed of \<open>a\<close> and \<open>a\<close> is not in the feed of \<open>b\<close>.
\<close>

theorem feed_excludes_linked_users:
  assumes "linked ledger a b"
  shows "\<not> in_feed (feed regex users (run reqs ledger) a q) b
     \<and> \<not> in_feed (feed regex' users' (run reqs ledger) b q') a"
proof -
  have "linked (run reqs ledger) a b"
    using assms by (rule run_linked)
  then show ?thesis
    using linked_not_in_feed linked_sym by metis
qed

theorem feed_excludes_linked_users_witness:
  "linked [\<lparr>fromUserId = (1::nat), toUserId = 2, status = ignored\<rparr>] 1 2
   \<and> \<not> in_feed (feed any_regex [complete_user (1::nat), complete_user 2]
         (run [([complete_user (1::nat), complete_user 2], SwipeRight 2 (ObjectId 1))]
            [\<lparr>fromUserId = 1, toUserId = 2, status = ignored\<rparr>]) 1 empty_query) 2
   \<and> \<not> in_feed (feed any_regex [complete_user (1::nat), complete_user 2]
         (run [([complete_user (1::nat), complete_user 2], SwipeRight 2 (ObjectId 1))]
            [\<lparr>fromUserId = 1, toUserId = 2, status = ignored\<rparr>]) 2 empty_query) 1"
proof -
  have h: "linked [\<lparr>fromUserId = (1::nat), toUserId = 2, status = ignored\<rparr>] 1 2"
    by (simp add: linked_def)
  from h feed_excludes_linked_users [OF h] show ?thesis
    by blast
qed

text \<open>
  C5. For distinct users \<open>a\<close> and \<open>b\<close> with no record between them, where \<open>b\<close> exists:
  after \<open>a\<close> swipes left on \<open>b\<close> the ledger has gained exactly the record \<open>a \<rightarrow> b\<close> with
  status ignored, it is the only record \<open>a \<rightarrow> b\<close>, and there is no record \<open>b \<rightarrow> a\<close>. From then
  on, whatever swipes follow and whatever the query, \<open>b\<close> is not in the feed of \<open>a\<close>, and
  \<open>a\<close> is not in the feed of \<open>b\<close> either: the feed hides both sides of every record that
  involves the requesting user.
\<close>

theorem left_swipe_hides_both_ways:
  assumes "a \<noteq> b" and "findById users b \<noteq> None" and "\<not> linked ledger a b"
  shows "snd (swipe_left users a (ObjectId b) ledger)
       = ledger @ [\<lparr>fromUserId = a, toUserId = b, status = ignored\<rparr>]
     \<and> filter (\<lambda>r. fromUserId r = a \<and> toUserId r = b)
          (snd (swipe_left users a (ObjectId b) ledger))
       = [\<lparr>fromUserId = a, toUserId = b, status = ignored\<rparr>]
     \<and> findOne (snd (swipe_left users a (ObjectId b) ledger)) b a = None
     \<and> \<not> in_feed (feed regex users'
           (run reqs (snd (swipe_left users a (ObjectId b) ledger))) a q) b
     \<and> \<not> in_feed (feed regex users'
           (run reqs (snd (swipe_left users a (ObjectId b) ledger))) b q') a"
proof -
  let ?n = "\<lparr>fromUserId = a, toUserId = b, status = ignored\<rparr>"
  from assms(3) have none: "findOne ledger a b = None" "findOne ledger b a = None"
    by (auto simp: linked_pairs findOne_None_iff)
  have l1: "snd (swipe_left users a (ObjectId b) ledger) = ledger @ [?n]"
    using assms(1,2) none by (simp add: swipe_left_ledger)
  have "filter (\<lambda>r. fromUserId r = a \<and> toUserId r = b) ledger = []"
    using none(1) by (auto simp: findOne_None_iff filter_empty_conv)
  then have single: "filter (\<lambda>r. fromUserId r = a \<and> toUserId r = b) (ledger @ [?n]) = [?n]"
    by simp
  have reverse: "findOne (ledger @ [?n]) b a = None"
    using none(2) assms(1) by (simp add: findOne_append) (simp add: findOne_def)
  have "linked (ledger @ [?n]) a b"
    by (simp add: linked_iff)
  then have "linked (run reqs (ledger @ [?n])) a b"
    by (rule run_linked)
  then have "\<not> in_feed (feed regex users' (run reqs (ledger @ [?n])) a q) b"
    "\<not> in_feed (feed regex users' (run reqs (ledger @ [?n])) b q') a"
    using linked_not_in_feed linked_sym by metis+
  with single reverse show ?thesis
    unfolding l1 by simp
qed

theorem left_swipe_hides_both_ways_witness:
  "(1::nat) \<noteq> 2 \<and> findById [complete_user (1::nat), complete_user 2] 2 \<noteq> None
   \<and> \<not> linked ([] :: nat ledger) 1 2
   \<and> snd (swipe_left [complete_user (1::nat), complete_user 2] 1 (ObjectId 2) [])
       = [\<lparr>fromUserId = 1, toUserId = 2, status = ignored\<rparr>]
   \<and> \<not> in_feed (feed any_regex [complete_user (1::nat), complete_user 2]
           (run [] (snd (swipe_left [complete_user (1::nat), complete_user 2] 1 (ObjectId 2) [])))
           2 empty_query) 1"
proof -
  have h: "(1::nat) \<noteq> 2" "findById [complete_user (1::nat), complete_user 2] 2 \<noteq> None"
    "\<not> linked ([] :: nat ledger) 1 2"
    by (simp_all add: findById_def complete_user_def linked_def)
  from h left_swipe_hides_both_ways [OF h, of any_regex
      "[complete_user (1::nat), complete_user 2]" "[]" empty_query empty_query]
  show ?thesis
    by (metis append_Nil)
qed

text \<open>
  C5, the feed of the target: users 1 and 2 have complete profiles and no records, and 1 is
  in the feed of 2. After 1 swipes left on 2, user 2 has made no signal (no record \<open>2 \<rightarrow> 1\<close>),
  yet 1 is no longer in the feed of 2.
\<close>

theorem left_swipe_feed_counterexample:
  "in_feed (feed any_regex [complete_user (1::nat), complete_user 2] [] 2 empty_query) 1
   \<and> findOne (snd (swipe_left [complete_user (1::nat), complete_user 2] 1 (ObjectId 2) [])) 2 1
       = None
   \<and> \<not> in_feed (feed any_regex [complete_user (1::nat), complete_user 2]
         (snd (swipe_left [complete_user (1::nat), complete_user 2] 1 (ObjectId 2) []))
         2 empty_query) 1"
proof -
  have pg: "pagination empty_query = (1, 10, 0)"
    by (simp add: pagination_eq empty_query_def parsePositiveInt_def parseInt10_def
        isWhiteSpace_def isDigit_def)
  have ok: "location_ok any_regex empty_query"
    by (simp add: location_ok_def empty_query_def normalizeString_def)
  have l1: "snd (swipe_left [complete_user (1::nat), complete_user 2] 1 (ObjectId 2) [])
      = [\<lparr>fromUserId = 1, toUserId = 2, status = ignored\<rparr>]"
    by (simp add: swipe_left_ledger findById_def complete_user_def findOne_def)
  have c0: "candidates any_regex [complete_user (1::nat), complete_user 2] [] 2 empty_query
      = [complete_user 1]"
    by (simp add: candidates_def empty_query_def normalizeString_def normalizeSkills_def
        hideUsersFromFeed_def filterQuery_def complete_user_def)
  have c1: "candidates any_regex [complete_user (1::nat), complete_user 2]
      [\<lparr>fromUserId = 1, toUserId = 2, status = ignored\<rparr>] 2 empty_query = []"
    by (simp add: candidates_def empty_query_def normalizeString_def normalizeSkills_def
        hideUsersFromFeed_def filterQuery_def complete_user_def)
  show ?thesis
    unfolding l1 feed_eq [OF ok pg] c0 c1
    by (simp add: findOne_def complete_user_def)
qed

text \<open>
  C6. The limit of the feed is at most 50, and the response carries it. The feed returns
  the first \<open>limit\<close> candidates after the skipped ones, and \<^verbatim>\<open>hasMore\<close> tells whether the
  \<open>limit + 1\<close> rows fetched are more than \<open>limit\<close>. With \<^verbatim>\<open>limit=50\<close> and at least 51
  candidates left after the skip, the feed returns exactly 50 items and
  \<^verbatim>\<open>hasMore = true\<close>. A request with \<^verbatim>\<open>limit=10000\<close> gets the response of the same
  request with \<^verbatim>\<open>limit=50\<close>.
\<close>

theorem feed_limit_capped:
  assumes "location_ok regex q" and "pagination q = (p, l, s)"
  shows "l \<le> 50
     \<and> res_limit (feed regex users ledger a q) = l
     \<and> res_data (feed regex users ledger a q)
          = take (nat l) (drop (nat s) (candidates regex users ledger a q))
     \<and> res_hasMore (feed regex users ledger a q)
          = (l < int (length (take (nat (l + 1)) (drop (nat s) (candidates regex users ledger a q)))))
     \<and> (q_limit q = QString ''50''
          \<and> 51 \<le> length (drop (nat s) (candidates regex users ledger a q))
        \<longrightarrow> length (res_data (feed regex users ledger a q)) = 50
            \<and> res_hasMore (feed regex users ledger a q))
     \<and> feed regex users ledger a (q\<lparr>q_limit := QString ''10000''\<rparr>)
          = feed regex users ledger a (q\<lparr>q_limit := QString ''50''\<rparr>)"
proof -
  have cap: "l \<le> 50"
    using assms(2) by (auto simp: pagination_eq)
  have fifty: "l = 50" if "q_limit q = QString ''50''"
    using assms(2) that
    by (auto simp: pagination_eq parsePositiveInt_def parseInt10_def isWhiteSpace_def
        isDigit_def digitValue_def)
  show ?thesis
    using cap fifty feed_fetch [OF assms, of users ledger a] feed_limit_10000 [of regex users ledger a q]
    by (auto simp: feed_eq [OF assms])
qed

theorem feed_limit_capped_witness:
  "location_ok any_regex (empty_query\<lparr>q_limit := QString ''50''\<rparr>)
   \<and> pagination (empty_query\<lparr>q_limit := QString ''50''\<rparr>) = (1, 50, 0)
   \<and> q_limit (empty_query\<lparr>q_limit := QString ''50''\<rparr>) = QString ''50''
   \<and> 51 \<le> length (drop (nat 0)
        (candidates any_regex sixty_users [] 0 (empty_query\<lparr>q_limit := QString ''50''\<rparr>)))
   \<and> length (res_data (feed any_regex sixty_users [] 0 (empty_query\<lparr>q_limit := QString ''50''\<rparr>)))
       = 50
   \<and> res_hasMore (feed any_regex sixty_users [] 0 (empty_query\<lparr>q_limit := QString ''50''\<rparr>))"
proof -
  let ?q = "empty_query\<lparr>q_limit := QString ''50''\<rparr>"
  have ok: "location_ok any_regex ?q"
    by (simp add: location_ok_def empty_query_def normalizeString_def)
  have pg: "pagination ?q = (1, 50, 0)"
    by (simp add: pagination_eq empty_query_def parsePositiveInt_def parseInt10_def
        isWhiteSpace_def isDigit_def digitValue_def)
  have f: "filterQuery [] (0::nat) [] [] [] [] None (complete_user i) = (i \<noteq> 0)" for i
    by (simp add: filterQuery_def complete_user_def)
  have "candidates any_regex sixty_users [] 0 ?q
      = filter (filterQuery [] (0::nat) [] [] [] [] None) sixty_users"
    by (simp add: candidates_def empty_query_def normalizeString_def normalizeSkills_def
        hideUsersFromFeed_def)
  also have "\<dots> = sixty_users"
    by (auto simp: sixty_users_def filter_id_conv f)
  finally have c: "candidates any_regex sixty_users [] 0 ?q = sixty_users" .
  have n: "51 \<le> length (drop (nat 0) (candidates any_regex sixty_users [] 0 ?q))"
    unfolding c by (simp add: sixty_users_def)
  have ql: "q_limit ?q = QString ''50''" by simp
  from ok pg ql n feed_limit_capped [OF ok pg, of sixty_users "[]" 0] show ?thesis
    by (intro conjI) simp_all
qed

text \<open>
  C10. For a request whose skip is a safe integer: the page and the limit of the feed are
  at least 1, and the number of candidates skipped is \<open>(page - 1) * limit\<close>. When the
  \<^verbatim>\<open>page\<close> parameter is missing, does not start with an integer (after white space and an
  optional sign comes no digit: \<^verbatim>\<open>parseInt\<close> gives \<^verbatim>\<open>NaN\<close>), or starts with an integer
  that is zero or negative, the page is 1; in the same cases of the \<^verbatim>\<open>limit\<close> parameter,
  the limit is 10. A parameter that starts with a positive integer stands for that integer
  (capped at 50 for the limit), whatever follows the digits.
\<close>

theorem feed_pagination_parsed:
  assumes "pagination q = (p, l, s)" and "safe_integer s"
  shows "1 \<le> p \<and> 1 \<le> l \<and> s = (p - 1) * l
     \<and> (q_page q = QUndefined \<or> parseInt10 (String_of (q_page q)) = None
          \<or> (\<exists>n\<le>0. parseInt10 (String_of (q_page q)) = Some n) \<longrightarrow> p = 1)
     \<and> (\<forall>n>0. parseInt10 (String_of (q_page q)) = Some n \<longrightarrow> p = n)
     \<and> (q_limit q = QUndefined \<or> parseInt10 (String_of (q_limit q)) = None
          \<or> (\<exists>n\<le>0. parseInt10 (String_of (q_limit q)) = Some n) \<longrightarrow> l = 10)
     \<and> (\<forall>n>0. parseInt10 (String_of (q_limit q)) = Some n \<longrightarrow> l = min 50 n)
     \<and> (location_ok regex q \<longrightarrow>
          feed regex users ledger a q =
            FeedData (take (nat l) (drop (nat s) (candidates regex users ledger a q))) p l
              (l < int (length (drop (nat s) (candidates regex users ledger a q)))))"
proof -
  have p: "p = parsePositiveInt (q_page q) 1"
    and l: "l = min 50 (parsePositiveInt (q_limit q) 10)"
    and s: "s = (p - 1) * l"
    using assms(1) by (auto simp: pagination_eq)
  have 1: "1 \<le> p" "1 \<le> l"
    using parsePositiveInt_pos [of 1 "q_page q"] parsePositiveInt_pos [of 10 "q_limit q"]
    by (auto simp: p l)
  have 2: "q_page q = QUndefined \<or> parseInt10 (String_of (q_page q)) = None
          \<or> (\<exists>n\<le>0. parseInt10 (String_of (q_page q)) = Some n) \<longrightarrow> p = 1"
    using parseInt10_undefined by (auto simp: p intro!: parsePositiveInt_fallback)
  have 3: "q_limit q = QUndefined \<or> parseInt10 (String_of (q_limit q)) = None
          \<or> (\<exists>n\<le>0. parseInt10 (String_of (q_limit q)) = Some n) \<longrightarrow> l = 10"
  proof
    assume "q_limit q = QUndefined \<or> parseInt10 (String_of (q_limit q)) = None
          \<or> (\<exists>n\<le>0. parseInt10 (String_of (q_limit q)) = Some n)"
    then have "parsePositiveInt (q_limit q) 10 = 10"
      using parseInt10_undefined by (auto intro!: parsePositiveInt_fallback)
    then show "l = 10" by (simp add: l)
  qed
  have 4: "location_ok regex q \<longrightarrow>
          feed regex users ledger a q =
            FeedData (take (nat l) (drop (nat s) (candidates regex users ledger a q))) p l
              (l < int (length (drop (nat s) (candidates regex users ledger a q))))"
    by (simp add: feed_eq [OF _ assms(1)])
  have 5: "\<forall>n>0. parseInt10 (String_of (q_page q)) = Some n \<longrightarrow> p = n"
    by (simp add: p parsePositiveInt_parsed)
  have 6: "\<forall>n>0. parseInt10 (String_of (q_limit q)) = Some n \<longrightarrow> l = min 50 n"
    by (simp add: l parsePositiveInt_parsed)
  show ?thesis
    by (intro conjI 1 2 3 4 5 6 s)
qed

theorem feed_pagination_parsed_witness:
  "pagination (empty_query\<lparr>q_page := QString ''0'', q_limit := QString ''-5''\<rparr>) = (1, 10, 0)
   \<and> safe_integer 0
   \<and> parseInt10 (String_of (q_page (empty_query\<lparr>q_page := QString ''0'',
        q_limit := QString ''-5''\<rparr>))) = Some 0
   \<and> parseInt10 (String_of (q_limit (empty_query\<lparr>q_page := QString ''0'',
        q_limit := QString ''-5''\<rparr>))) = Some (- 5)
   \<and> location_ok any_regex (empty_query\<lparr>q_page := QString ''0'', q_limit := QString ''-5''\<rparr>)
   \<and> feed any_regex [complete_user (1::nat), complete_user 2] [] 2
        (empty_query\<lparr>q_page := QString ''0'', q_limit := QString ''-5''\<rparr>)
       = FeedData [complete_user 1] 1 10 False"
proof -
  let ?q = "empty_query\<lparr>q_page := QString ''0'', q_limit := QString ''-5''\<rparr>"
  have pg: "pagination ?q = (1, 10, 0)"
    by (simp add: pagination_eq empty_query_def parsePositiveInt_def parseInt10_def
        isWhiteSpace_def isDigit_def digitValue_def)
  have sf: "safe_integer 0"
    by (simp add: safe_integer_def)
  have p0: "parseInt10 (String_of (q_page ?q)) = Some 0"
    and l0: "parseInt10 (String_of (q_limit ?q)) = Some (- 5)"
    by (simp_all add: parseInt10_def isWhiteSpace_def isDigit_def digitValue_def)
  have ok: "location_ok any_regex ?q"
    by (simp add: location_ok_def empty_query_def normalizeString_def)
  have c: "candidates any_regex [complete_user (1::nat), complete_user 2] [] 2 ?q
      = [complete_user 1]"
    by (simp add: candidates_def empty_query_def normalizeString_def normalizeSkills_def
        hideUsersFromFeed_def filterQuery_def complete_user_def)
  from ok feed_pagination_parsed [OF pg sf, of any_regex
      "[complete_user (1::nat), complete_user 2]" "[]" 2]
  have "feed any_regex [complete_user (1::nat), complete_user 2] [] 2 ?q =
      FeedData (take (nat 10) (drop (nat 0)
        (candidates any_regex [complete_user (1::nat), complete_user 2] [] 2 ?q))) 1 10
        (10 < int (length (drop (nat 0)
          (candidates any_regex [complete_user (1::nat), complete_user 2] [] 2 ?q))))"
    by blast
  then have "feed any_regex [complete_user (1::nat), complete_user 2] [] 2 ?q =
      FeedData [complete_user 1] 1 10 False"
    unfolding c by simp
  with pg sf p0 l0 ok show ?thesis
    by blast
qed

text \<open>
  C10, non-numeric parameters that start with an integer: \<^verbatim>\<open>limit=7xyz\<close> gives the limit
  7, not the default 10, and \<^verbatim>\<open>page=12abc\<close> gives the page 12, not the default 1.
\<close>

theorem non_numeric_parameter_counterexample:
  "\<not> numeric ''7xyz''
   \<and> pagination (empty_query\<lparr>q_page := QString ''2'', q_limit := QString ''7xyz''\<rparr>)
       = (2, 7, 7)
   \<and> \<not> numeric ''12abc''
   \<and> pagination (empty_query\<lparr>q_page := QString ''12abc''\<rparr>) = (12, 10, 110)"
  by (simp add: numeric_def trim_def pagination_eq empty_query_def parsePositiveInt_def
      parseInt10_def isWhiteSpace_def isDigit_def digitValue_def)

end
